theory Spec2Isabelle
  imports Complex_Main
begin

section \<open>The video annotation pipeline of app/processor.py\<close>

text \<open>
  The theory embeds \<^verbatim>\<open>process_video\<close>. The external collaborators (the file system,
  the OpenCV decoder and encoder, the MediaPipe pose session) are an environment that the
  function consults; what it leaves behind (handles still held, the output file) is returned
  next to the Python result. An exception is the \<open>Inl\<close> side of a sum.

  Conventions of the model:
  \<^item> The 64-bit floats of Python and NumPy are idealised as reals: rounding error, infinities
    and NaN are outside the model.
  \<^item> A capture opens only on a file that can be read and decoded. Whether the encoder opens
    is the environment's answer to the rate and the frame size it is given. Creating the pose
    session may raise; so may the work on any single frame. The three release calls of the
    \<^verbatim>\<open>finally\<close> block do not raise.
  \<^item> The output file exists once the encoder has opened.
\<close>

subsection \<open>Data\<close>

type_synonym landmarks = "(real \<times> real) list"

text \<open>
  The exceptions that can leave the function: the three it raises itself (lines 42, 46, 59),
  the one of \<^verbatim>\<open>draw_landmarks\<close> (a connection that names a landmark the list does not
  have), the two of NumPy (\<^verbatim>\<open>norm(..., axis=1)\<close> on a one-dimensional array, an index out
  of bounds), and whatever else an external call raises.
\<close>

datatype py_error =
    FileNotFoundError
  | IOError_cannot_open_video
  | IOError_could_not_open_writer
  | ValueError
  | AxisError
  | IndexError
  | ExternalError

text \<open>
  What \<^verbatim>\<open>pose.process\<close> does on one frame: it raises, or \<^verbatim>\<open>results.pose_landmarks\<close>
  is \<^verbatim>\<open>None\<close>, or it is a landmark list, of which the code keeps the (x, y) pairs.
\<close>

datatype pose_results = Fails | No_landmarks | Landmarks landmarks

text \<open>
  An opened capture: the four properties read at lines 48 to 51, and the frames that
  \<^verbatim>\<open>cap.read\<close> delivers in order, each with what the pose session answers on it.
\<close>

record capture =
  prop_fps :: real
  prop_width :: real
  prop_height :: real
  prop_frame_count :: real
  stream :: "pose_results list"

text \<open>
  What \<^verbatim>\<open>input_path\<close> refers to. \<^verbatim>\<open>os.path.isfile\<close> holds of every existing regular
  file, readable or not; \<^verbatim>\<open>cv2.VideoCapture\<close> opens only a file it can read and decode.
\<close>

datatype path_status = NotAFile | Unreadable | Undecodable | Video capture

text \<open>
  The environment of a call: the input path, the encoder (asked with the output rate and
  the frame size), and whether \<^verbatim>\<open>mp_pose.Pose(...)\<close> succeeds.
\<close>

record env =
  input_file :: path_status
  writer_isOpened :: "real \<Rightarrow> int \<times> int \<Rightarrow> bool"
  pose_starts :: bool

text \<open>
  A frame as written: the skeleton drawn on it, if any, and the two numbers of the text
  \<^verbatim>\<open>Frame: i/n\<close>. The output file records the rate and size the encoder was opened with.
  The effects say which handles are open and unreleased when the call is left.
\<close>

record annotated_frame =
  overlay :: "landmarks option"
  label :: "nat \<times> int"

record video_out =
  out_rate :: real
  out_size :: "int \<times> int"
  out_frames :: "annotated_frame list"

record effects =
  cap_held :: bool
  writer_held :: bool
  pose_held :: bool
  output_file :: "video_out option"

text \<open>The \<^verbatim>\<open>metrics\<close> dictionary, and the local variables of the loop (lines 67 to 79).\<close>

record metrics =
  frames_processed :: nat
  frames_with_pose :: nat
  avg_movement_intensity :: real
  dominant_limb :: "string option"

record loop_state =
  metrics :: metrics
  prev_landmarks :: "landmarks option"
  movement_accumulator :: real
  total_points :: nat
  left_movement :: real
  right_movement :: real
  frame_idx :: nat
  written :: nat
  writer_frames :: "annotated_frame list"

subsection \<open>Library operations\<close>

definition os_path_isfile :: "path_status \<Rightarrow> bool" where
  "os_path_isfile p = (case p of NotAFile \<Rightarrow> False | _ \<Rightarrow> True)"

definition VideoCapture :: "path_status \<Rightarrow> capture option" where
  "VideoCapture p = (case p of Video cap \<Rightarrow> Some cap | _ \<Rightarrow> None)"

text \<open>\<^verbatim>\<open>int(x)\<close> truncates towards zero.\<close>

definition py_int :: "real \<Rightarrow> int" where
  "py_int x = (if 0 \<le> x then \<lfloor>x\<rfloor> else \<lceil>x\<rceil>)"

text \<open>
  \<^verbatim>\<open>round(x, 5)\<close> on a NumPy float: scale by \<open>10\<^sup>5\<close>, round to the nearest integer with
  ties to the even one, scale back.
\<close>

definition rint :: "real \<Rightarrow> int" where
  "rint x =
     (let f = \<lfloor>x\<rfloor>; r = x - of_int f
      in if r < 1 / 2 then f else if 1 / 2 < r then f + 1 else if even f then f else f + 1)"

definition round5 :: "real \<Rightarrow> real" where
  "round5 x = of_int (rint (x * 100000)) / 100000"

text \<open>
  \<^verbatim>\<open>np.array\<close> of a list of pairs has shape \<open>(L, 2)\<close>, and shape \<open>(0,)\<close> when the list is
  empty. Subtraction is elementwise, the norm is taken row by row, and indexing with a list
  of indices raises when one of them is out of bounds.
\<close>

definition shape :: "landmarks \<Rightarrow> nat list" where
  "shape a = (if a = [] then [0] else [length a, 2])"

definition subtract :: "landmarks \<Rightarrow> landmarks \<Rightarrow> landmarks" where
  "subtract a b = map (\<lambda>((x, y), (x', y')). (x - x', y - y')) (zip a b)"

definition norm_axis1 :: "landmarks \<Rightarrow> real list" where
  "norm_axis1 a = map (\<lambda>(x, y). sqrt (x\<^sup>2 + y\<^sup>2)) a"

definition fancy_index :: "real list \<Rightarrow> nat list \<Rightarrow> py_error + real list" where
  "fancy_index d idx =
     (if list_all (\<lambda>i. i < length d) idx then Inr (map (\<lambda>i. d ! i) idx) else Inl IndexError)"

text \<open>
  \<^verbatim>\<open>mp_pose.POSE_CONNECTIONS\<close>, the skeleton of the 33 landmarks of MediaPipe Pose, and
  \<^verbatim>\<open>mp_drawing.draw_landmarks\<close> as far as it can fail: it raises \<^verbatim>\<open>ValueError\<close> when a
  connection starts or ends at an index that the landmark list does not have.
\<close>

definition POSE_CONNECTIONS :: "(nat \<times> nat) list" where
  "POSE_CONNECTIONS =
     [(0, 1), (1, 2), (2, 3), (3, 7), (0, 4), (4, 5), (5, 6), (6, 8), (9, 10),
      (11, 12), (11, 13), (13, 15), (15, 17), (15, 19), (15, 21), (17, 19),
      (12, 14), (14, 16), (16, 18), (16, 20), (16, 22), (18, 20),
      (11, 23), (12, 24), (23, 24), (23, 25), (24, 26), (25, 27), (26, 28),
      (27, 29), (28, 30), (29, 31), (30, 32), (27, 31), (28, 32)]"

definition draw_landmarks :: "landmarks \<Rightarrow> (nat \<times> nat) list \<Rightarrow> py_error + landmarks" where
  "draw_landmarks landmark_list connections =
     (if list_all (\<lambda>(start_idx, end_idx).
                    start_idx < length landmark_list \<and> end_idx < length landmark_list)
           connections
      then Inr landmark_list else Inl ValueError)"

subsection \<open>The body of the frame loop\<close>

definition left_idx :: "nat list" where
  "left_idx = [11, 13, 15, 23, 25, 27]"

definition right_idx :: "nat list" where
  "right_idx = [12, 14, 16, 24, 26, 28]"

text \<open>Lines 105 to 113: the comparison with the previous landmarks.\<close>

definition accumulate :: "landmarks \<Rightarrow> loop_state \<Rightarrow> py_error + loop_state" where
  "accumulate landmarks s =
     (case prev_landmarks s of
        None \<Rightarrow> Inr s
      | Some prev \<Rightarrow>
          (if shape landmarks \<noteq> shape prev then Inr s
           else if landmarks = [] then Inl AxisError
           else
             (let diff = norm_axis1 (subtract landmarks prev);
                  s1 = s\<lparr>movement_accumulator := movement_accumulator s + sum_list diff,
                         total_points := total_points s + length diff\<rparr>
              in (case fancy_index diff left_idx of
                    Inl e \<Rightarrow> Inl e
                  | Inr l \<Rightarrow>
                      (case fancy_index diff right_idx of
                         Inl e \<Rightarrow> Inl e
                       | Inr r \<Rightarrow>
                           Inr (s1\<lparr>left_movement := left_movement s1 + sum_list l,
                                    right_movement := right_movement s1 + sum_list r\<rparr>))))))"

text \<open>Lines 118 to 122: the frame number is burnt in, the frame is written and counted.\<close>

definition write_frame :: "int \<Rightarrow> landmarks option \<Rightarrow> loop_state \<Rightarrow> loop_state" where
  "write_frame input_frame_count drawn s =
     s\<lparr>writer_frames :=
          writer_frames s @ [\<lparr>overlay = drawn, label = (frame_idx s, input_frame_count)\<rparr>],
       written := written s + 1\<rparr>"

text \<open>
  Lines 90 to 122: one pass through the loop body, after the checks of its head. On a frame
  with a pose the counter is raised (line 94), the skeleton is drawn (lines 95 to 101), the
  landmarks are compared (lines 103 to 113) and stored (line 115).
\<close>

definition process_frame :: "int \<Rightarrow> pose_results \<Rightarrow> loop_state \<Rightarrow> py_error + loop_state" where
  "process_frame input_frame_count results s =
     (case results of
        Fails \<Rightarrow> Inl ExternalError
      | No_landmarks \<Rightarrow> Inr (write_frame input_frame_count None s)
      | Landmarks landmarks \<Rightarrow>
          (let s0 = s\<lparr>metrics := (metrics s)\<lparr>frames_with_pose := frames_with_pose (metrics s) + 1\<rparr>\<rparr>
           in (case draw_landmarks landmarks POSE_CONNECTIONS of
                 Inl e \<Rightarrow> Inl e
               | Inr drawn \<Rightarrow>
                   (case accumulate landmarks s0 of
                      Inl e \<Rightarrow> Inl e
                    | Inr s1 \<Rightarrow>
                        Inr (write_frame input_frame_count (Some drawn)
                               (s1\<lparr>prev_landmarks := Some landmarks\<rparr>))))))"

text \<open>
  Lines 82 to 88 and the loop: no frame left ends the loop, and so does a frame number above
  a \<^verbatim>\<open>max_frames\<close> that is neither \<^verbatim>\<open>None\<close> nor 0. An exception ends it with the state
  the writer has seen.
\<close>

definition frame_cap_exceeded :: "int option \<Rightarrow> nat \<Rightarrow> bool" where
  "frame_cap_exceeded max_frames i =
     (case max_frames of None \<Rightarrow> False | Some m \<Rightarrow> m \<noteq> 0 \<and> m < int i)"

fun frame_loop ::
  "int option \<Rightarrow> int \<Rightarrow> pose_results list \<Rightarrow> loop_state \<Rightarrow> py_error option \<times> loop_state" where
  "frame_loop max_frames n [] s = (None, s)"
| "frame_loop max_frames n (f # fs) s =
     (let s1 = s\<lparr>frame_idx := frame_idx s + 1\<rparr>
      in if frame_cap_exceeded max_frames (frame_idx s1) then (None, s1)
         else case process_frame n f s1 of
                Inl e \<Rightarrow> (Some e, s1)
              | Inr s2 \<Rightarrow> frame_loop max_frames n fs s2)"

subsection \<open>The whole call\<close>

definition initial_state :: loop_state where
  "initial_state =
     \<lparr>metrics = \<lparr>frames_processed = 0, frames_with_pose = 0,
                 avg_movement_intensity = 0, dominant_limb = None\<rparr>,
      prev_landmarks = None, movement_accumulator = 0, total_points = 0,
      left_movement = 0, right_movement = 0, frame_idx = 0, written = 0,
      writer_frames = []\<rparr>"

text \<open>Lines 130 to 133.\<close>

definition finalize :: "loop_state \<Rightarrow> metrics" where
  "finalize s =
     (let m = (metrics s)\<lparr>frames_processed := written s\<rparr>
      in if 0 < total_points s
         then m\<lparr>avg_movement_intensity :=
                   round5 (movement_accumulator s / real (total_points s)),
                 dominant_limb :=
                   Some (if right_movement s < left_movement s then ''left'' else ''right'')\<rparr>
         else m)"

text \<open>Lines 48 to 52.\<close>

definition in_fps :: "capture \<Rightarrow> real" where
  "in_fps cap = (if prop_fps cap \<noteq> 0 then prop_fps cap else 30)"

definition width :: "capture \<Rightarrow> int" where
  "width cap = py_int (if prop_width cap \<noteq> 0 then prop_width cap else 640)"

definition height :: "capture \<Rightarrow> int" where
  "height cap = py_int (if prop_height cap \<noteq> 0 then prop_height cap else 480)"

definition input_frame_count :: "capture \<Rightarrow> int" where
  "input_frame_count cap = py_int (if prop_frame_count cap \<noteq> 0 then prop_frame_count cap else 0)"

definition out_fps :: "real option \<Rightarrow> capture \<Rightarrow> real" where
  "out_fps target_fps cap =
     (case target_fps of
        None \<Rightarrow> in_fps cap
      | Some t \<Rightarrow> if t \<noteq> 0 then t else in_fps cap)"

definition run_loop :: "capture \<Rightarrow> int option \<Rightarrow> py_error option \<times> loop_state" where
  "run_loop cap max_frames =
     frame_loop max_frames (input_frame_count cap) (stream cap) initial_state"

text \<open>
  Lines 124 to 127, the \<^verbatim>\<open>finally\<close> block: the pose session is closed, the writer is
  released (the file then holds the frames written) and the capture is released.
\<close>

definition finally_block :: "loop_state \<Rightarrow> effects \<Rightarrow> effects" where
  "finally_block s w =
     w\<lparr>pose_held := False, writer_held := False, cap_held := False,
       output_file := map_option (\<lambda>f. f\<lparr>out_frames := writer_frames s\<rparr>) (output_file w)\<rparr>"

definition nothing_held :: "video_out option \<Rightarrow> effects" where
  "nothing_held f = \<lparr>cap_held = False, writer_held = False, pose_held = False, output_file = f\<rparr>"

text \<open>
  Lines 41 to 137. Each handle is marked as held where it is opened: the capture at line 44,
  the writer at line 56, the pose session at line 62, after both streams and before the
  \<^verbatim>\<open>try\<close> block of line 81. A failing writer releases the capture (line 58).
\<close>

definition process_video ::
  "env \<Rightarrow> real option \<Rightarrow> int option \<Rightarrow> bool
     \<Rightarrow> (py_error + nat \<times> real \<times> metrics option) \<times> effects" where
  "process_video e target_fps max_frames return_metrics =
     (if \<not> os_path_isfile (input_file e) then (Inl FileNotFoundError, nothing_held None)
      else
        case VideoCapture (input_file e) of
          None \<Rightarrow> (Inl IOError_cannot_open_video, nothing_held None)
        | Some cap \<Rightarrow>
            let w1 = (nothing_held None)\<lparr>cap_held := True\<rparr>;
                fps = out_fps target_fps cap;
                file = \<lparr>out_rate = fps, out_size = (width cap, height cap), out_frames = []\<rparr>
            in if \<not> writer_isOpened e fps (width cap, height cap)
               then (Inl IOError_could_not_open_writer, w1\<lparr>cap_held := False\<rparr>)
               else
                 let w2 = w1\<lparr>writer_held := True, output_file := Some file\<rparr>
                 in if \<not> pose_starts e then (Inl ExternalError, w2)
                    else
                      let w3 = w2\<lparr>pose_held := True\<rparr>
                      in (case run_loop cap max_frames of
                            (Some err, s) \<Rightarrow> (Inl err, finally_block s w3)
                          | (None, s) \<Rightarrow>
                              (Inr (written s, fps,
                                    (if return_metrics then Some (finalize s) else None)),
                               finally_block s w3)))"

subsection \<open>Notions used to state the properties\<close>

text \<open>
  The frames that a loop standing at frame number \<open>k\<close> will still process under the cap.
\<close>

definition remaining :: "int option \<Rightarrow> nat \<Rightarrow> pose_results list \<Rightarrow> pose_results list" where
  "remaining max_frames k fs =
     (case max_frames of
        None \<Rightarrow> fs
      | Some m \<Rightarrow> if m = 0 then fs else take (nat m - k) fs)"

text \<open>
  A frame is compared when it has a pose and previous landmarks of the same length exist;
  a frame with a pose replaces the previous landmarks; \<open>comparisons\<close> counts the compared
  frames of a run.
\<close>

definition compared :: "landmarks option \<Rightarrow> pose_results \<Rightarrow> bool" where
  "compared prev f =
     (case f of
        Landmarks l \<Rightarrow> (case prev of None \<Rightarrow> False | Some p \<Rightarrow> length p = length l)
      | _ \<Rightarrow> False)"

definition tracked :: "landmarks option \<Rightarrow> pose_results \<Rightarrow> landmarks option" where
  "tracked prev f = (case f of Landmarks l \<Rightarrow> Some l | _ \<Rightarrow> prev)"

fun comparisons :: "landmarks option \<Rightarrow> pose_results list \<Rightarrow> nat" where
  "comparisons prev [] = 0"
| "comparisons prev (f # fs) =
     (if compared prev f then 1 else 0) + comparisons (tracked prev f) fs"

definition has_pose :: "pose_results \<Rightarrow> bool" where
  "has_pose f = (case f of Landmarks l \<Rightarrow> True | _ \<Rightarrow> False)"

text \<open>
  A frame on which nothing raises: no pose, or a pose with all the landmarks that the
  skeleton connects, which are 33.
\<close>

definition usable :: "pose_results \<Rightarrow> bool" where
  "usable f = (case f of Fails \<Rightarrow> False | No_landmarks \<Rightarrow> True | Landmarks l \<Rightarrow> 32 < length l)"

text \<open>The Euclidean distance of two points of the plane.\<close>

definition euclidean :: "real \<times> real \<Rightarrow> real \<times> real \<Rightarrow> real" where
  "euclidean p q = sqrt ((fst p - fst q)\<^sup>2 + (snd p - snd q)\<^sup>2)"

text \<open>
  The output rate in the words of the specification: the target when it is given and
  greater than zero, otherwise the rate of the source, 30 when that is zero.
\<close>

definition claimed_out_fps :: "real option \<Rightarrow> capture \<Rightarrow> real" where
  "claimed_out_fps target_fps cap =
     (let source = (if prop_fps cap = 0 then 30 else prop_fps cap)
      in case target_fps of
           None \<Rightarrow> source
         | Some t \<Rightarrow> if 0 < t then t else source)"


text \<open>No handle is left open.\<close>

definition all_released :: "effects \<Rightarrow> bool" where
  "all_released eff \<longleftrightarrow> \<not> cap_held eff \<and> \<not> writer_held eff \<and> \<not> pose_held eff"

subsection \<open>Sample inputs\<close>

text \<open>
  Two poses of 33 landmarks that differ in the left shoulder (index 11) by half the frame
  height, and a pose of 34 landmarks; a clip of three frames whose second frame has no pose;
  the clip of the test, fifteen frames at 10 frames per second without any pose; an
  environment in which everything opens, and one in which the pose session cannot be created.
\<close>

definition still33 :: landmarks where
  "still33 = replicate 33 (0, 0)"

definition moved33 :: landmarks where
  "moved33 = replicate 11 (0, 0) @ (0, 1 / 2) # replicate 21 (0, 0)"

definition wide34 :: landmarks where
  "wide34 = replicate 34 (0, 0)"

definition dance_clip :: capture where
  "dance_clip =
     \<lparr>prop_fps = 25, prop_width = 160, prop_height = 120, prop_frame_count = 3,
      stream = [Landmarks still33, No_landmarks, Landmarks moved33]\<rparr>"

definition dot_clip :: capture where
  "dot_clip =
     \<lparr>prop_fps = 10, prop_width = 160, prop_height = 120, prop_frame_count = 15,
      stream = replicate 15 No_landmarks\<rparr>"

definition studio :: "path_status \<Rightarrow> env" where
  "studio p = \<lparr>input_file = p, writer_isOpened = (\<lambda>fps size. True), pose_starts = True\<rparr>"

definition tracking :: "landmarks \<Rightarrow> loop_state" where
  "tracking prev = initial_state\<lparr>prev_landmarks := Some prev\<rparr>"

definition dance_final :: loop_state where
  "dance_final =
     \<lparr>metrics = \<lparr>frames_processed = 0, frames_with_pose = 2,
                 avg_movement_intensity = 0, dominant_limb = None\<rparr>,
      prev_landmarks = Some moved33, movement_accumulator = 1 / 2, total_points = 33,
      left_movement = 1 / 2, right_movement = 0, frame_idx = 3, written = 3,
      writer_frames =
        [\<lparr>overlay = Some still33, label = (1, 3)\<rparr>,
         \<lparr>overlay = None, label = (2, 3)\<rparr>,
         \<lparr>overlay = Some moved33, label = (3, 3)\<rparr>]\<rparr>"

definition dance_metrics :: metrics where
  "dance_metrics =
     \<lparr>frames_processed = 3, frames_with_pose = 2,
      avg_movement_intensity = 1515 / 100000, dominant_limb = Some ''left''\<rparr>"

definition dance_effects :: "real \<Rightarrow> effects" where
  "dance_effects rate =
     \<lparr>cap_held = False, writer_held = False, pose_held = False,
      output_file =
        Some \<lparr>out_rate = rate, out_size = (160, 120), out_frames = writer_frames dance_final\<rparr>\<rparr>"

definition broken_estimator :: "path_status \<Rightarrow> env" where
  "broken_estimator p =
     \<lparr>input_file = p, writer_isOpened = (\<lambda>fps size. True), pose_starts = False\<rparr>"

section \<open>Properties of the loop\<close>

lemma draw_pose:
  "draw_landmarks l POSE_CONNECTIONS = (if 32 < length l then Inr l else Inl ValueError)"
  by (auto simp: draw_landmarks_def POSE_CONNECTIONS_def)

lemma process_frame_unfold:
  "process_frame n Fails s = Inl ExternalError"
  "process_frame n No_landmarks s = Inr (write_frame n None s)"
  "process_frame n (Landmarks l) s =
     (if 32 < length l
      then (case accumulate l
                   (s\<lparr>metrics := (metrics s)\<lparr>frames_with_pose := frames_with_pose (metrics s) + 1\<rparr>\<rparr>) of
              Inl e \<Rightarrow> Inl e
            | Inr s1 \<Rightarrow> Inr (write_frame n (Some l) (s1\<lparr>prev_landmarks := Some l\<rparr>)))
      else Inl ValueError)"
  by (simp_all add: process_frame_def draw_pose Let_def)

lemma write_frame_simps [simp]:
  "metrics (write_frame n d s) = metrics s"
  "prev_landmarks (write_frame n d s) = prev_landmarks s"
  "movement_accumulator (write_frame n d s) = movement_accumulator s"
  "total_points (write_frame n d s) = total_points s"
  "left_movement (write_frame n d s) = left_movement s"
  "right_movement (write_frame n d s) = right_movement s"
  "frame_idx (write_frame n d s) = frame_idx s"
  "written (write_frame n d s) = written s + 1"
  "writer_frames (write_frame n d s) =
     writer_frames s @ [\<lparr>overlay = d, label = (frame_idx s, n)\<rparr>]"
  by (simp_all add: write_frame_def)

lemma accumulate_frame:
  assumes "accumulate l s = Inr s'"
  shows "metrics s' = metrics s" "prev_landmarks s' = prev_landmarks s"
    "frame_idx s' = frame_idx s" "written s' = written s"
    "writer_frames s' = writer_frames s"
  using assms
  by (auto simp: accumulate_def Let_def split: option.splits if_splits sum.splits)

lemma process_frame_frame_idx:
  "process_frame n f s = Inr s' \<Longrightarrow> frame_idx s' = frame_idx s"
  by (cases f) (auto simp: process_frame_unfold split: sum.splits if_splits dest: accumulate_frame)

lemma remaining_Cons:
  "\<not> frame_cap_exceeded mf (Suc k) \<Longrightarrow> remaining mf k (f # fs) = f # remaining mf (Suc k) fs"
  by (auto simp: remaining_def frame_cap_exceeded_def take_Cons' split: option.splits)

lemma remaining_exceeded:
  "frame_cap_exceeded mf (Suc k) \<Longrightarrow> remaining mf k fs = []"
  by (auto simp: remaining_def frame_cap_exceeded_def split: option.splits)

lemma frame_loop_Cons:
  "frame_loop mf n (f # fs) s =
     (if frame_cap_exceeded mf (Suc (frame_idx s)) then (None, s\<lparr>frame_idx := Suc (frame_idx s)\<rparr>)
      else case process_frame n f (s\<lparr>frame_idx := Suc (frame_idx s)\<rparr>) of
             Inl e \<Rightarrow> (Some e, s\<lparr>frame_idx := Suc (frame_idx s)\<rparr>)
           | Inr s2 \<Rightarrow> frame_loop mf n fs s2)"
  by (simp add: Let_def)

lemma frame_cap_None [simp]: "\<not> frame_cap_exceeded None k"
  by (simp add: frame_cap_exceeded_def)

declare frame_loop.simps(2) [simp del]

lemma frame_loop_capped:
  "frame_loop mf n fs s = (e, s') \<Longrightarrow>
   \<exists>s''. frame_loop None n (remaining mf (frame_idx s) fs) s = (e, s'') \<and>
         s' = s''\<lparr>frame_idx := frame_idx s'\<rparr>"
proof (induction fs arbitrary: s)
  case Nil
  then show ?case by (auto simp: remaining_def split: option.splits)
next
  case (Cons f fs)
  let ?s1 = "s\<lparr>frame_idx := frame_idx s + 1\<rparr>"
  show ?case
  proof (cases "frame_cap_exceeded mf (Suc (frame_idx s))")
    case True
    with Cons.prems show ?thesis
      by (auto simp: remaining_exceeded frame_loop_Cons)
  next
    case False
    note nocap = this
    show ?thesis
    proof (cases "process_frame n f ?s1")
      case (Inl err)
      with Cons.prems nocap show ?thesis
        by (auto simp: remaining_Cons frame_loop_Cons)
    next
      case (Inr s2)
      then have idx: "frame_idx s2 = Suc (frame_idx s)"
        by (auto dest: process_frame_frame_idx)
      from Cons.prems nocap Inr have "frame_loop mf n fs s2 = (e, s')"
        by (simp add: frame_loop_Cons)
      from Cons.IH [OF this] idx Inr nocap show ?thesis
        by (auto simp: remaining_Cons frame_loop_Cons)
    qed
  qed
qed

lemma shape_eq_iff: "shape a = shape b \<longleftrightarrow> length a = length b"
  by (auto simp: shape_def)

lemma length_diff: "length (norm_axis1 (subtract a b)) = min (length a) (length b)"
  by (simp add: norm_axis1_def subtract_def)

lemma fancy_index_Inr:
  "fancy_index d idx = Inr r \<longleftrightarrow> list_all (\<lambda>i. i < length d) idx \<and> r = map (\<lambda>i. d ! i) idx"
  by (auto simp: fancy_index_def)

lemma accumulate_points:
  assumes "accumulate l s = Inr s'"
  shows "if compared (prev_landmarks s) (Landmarks l)
         then 28 < length l \<and> total_points s' = total_points s + length l
         else total_points s' = total_points s"
  using assms
  by (auto simp: accumulate_def Let_def compared_def shape_eq_iff length_diff fancy_index_Inr
        right_idx_def split: option.splits if_splits sum.splits)

lemma process_frame_Inr:
  assumes "process_frame n f s = Inr s'"
  shows "avg_movement_intensity (metrics s') = avg_movement_intensity (metrics s)"
    and "dominant_limb (metrics s') = dominant_limb (metrics s)"
    and "frames_with_pose (metrics s') = frames_with_pose (metrics s) + (if has_pose f then 1 else 0)"
    and "written s' = written s + 1"
    and "length (writer_frames s') = length (writer_frames s) + 1"
    and "prev_landmarks s' = tracked (prev_landmarks s) f"
  using assms
  by (cases f; auto simp: process_frame_unfold has_pose_def tracked_def
        split: sum.splits if_splits dest: accumulate_frame)+

lemma process_frame_points:
  assumes "process_frame n f s = Inr s'"
  shows "if compared (prev_landmarks s) f
         then 28 < total_points s' - total_points s \<and> total_points s < total_points s'
         else total_points s' = total_points s"
proof (cases f)
  case (Landmarks l)
  with assms obtain s1 where
    acc: "accumulate l (s\<lparr>metrics := (metrics s)\<lparr>frames_with_pose := frames_with_pose (metrics s) + 1\<rparr>\<rparr>) = Inr s1"
    and s': "s' = write_frame n (Some l) (s1\<lparr>prev_landmarks := Some l\<rparr>)"
    by (auto simp: process_frame_unfold split: sum.splits if_splits)
  from accumulate_points [OF acc] s' Landmarks show ?thesis
    by (auto split: if_splits)
qed (use assms in \<open>auto simp: process_frame_unfold compared_def\<close>)

lemma uncapped_loop:
  "frame_loop None n fs s = (None, s') \<Longrightarrow>
   avg_movement_intensity (metrics s') = avg_movement_intensity (metrics s) \<and>
   dominant_limb (metrics s') = dominant_limb (metrics s) \<and>
   frames_with_pose (metrics s') = frames_with_pose (metrics s) + length (filter has_pose fs) \<and>
   written s' = written s + length fs \<and>
   length (writer_frames s') = length (writer_frames s) + length fs"
proof (induction fs arbitrary: s)
  case Nil
  then show ?case by simp
next
  case (Cons f fs)
  let ?s1 = "s\<lparr>frame_idx := Suc (frame_idx s)\<rparr>"
  from Cons.prems obtain s2 where step: "process_frame n f ?s1 = Inr s2"
    and rest: "frame_loop None n fs s2 = (None, s')"
    by (auto simp: frame_loop_Cons split: sum.splits)
  from process_frame_Inr [OF step] Cons.IH [OF rest] show ?case
    by simp
qed

lemma uncapped_loop_points:
  "frame_loop None n fs s = (None, s') \<Longrightarrow>
   total_points s \<le> total_points s' \<and>
   (total_points s' = total_points s \<longleftrightarrow> comparisons (prev_landmarks s) fs = 0)"
proof (induction fs arbitrary: s)
  case Nil
  then show ?case by simp
next
  case (Cons f fs)
  let ?s1 = "s\<lparr>frame_idx := Suc (frame_idx s)\<rparr>"
  from Cons.prems obtain s2 where step: "process_frame n f ?s1 = Inr s2"
    and rest: "frame_loop None n fs s2 = (None, s')"
    by (auto simp: frame_loop_Cons split: sum.splits)
  from process_frame_Inr(6) [OF step] have prev: "prev_landmarks s2 = tracked (prev_landmarks s) f"
    by simp
  from process_frame_points [OF step] Cons.IH [OF rest] prev show ?case
    by (auto split: if_splits)
qed

lemma process_video_Inr:
  assumes "process_video e target_fps max_frames return_metrics = (Inr (w, fps, m), eff)"
  shows "\<exists>cap s. input_file e = Video cap \<and>
           writer_isOpened e (out_fps target_fps cap) (width cap, height cap) \<and>
           pose_starts e \<and> run_loop cap max_frames = (None, s) \<and>
           w = written s \<and> fps = out_fps target_fps cap \<and>
           m = (if return_metrics then Some (finalize s) else None) \<and>
           eff = nothing_held (Some \<lparr>out_rate = fps, out_size = (width cap, height cap),
                                       out_frames = writer_frames s\<rparr>)"
  using assms
  by (auto simp: process_video_def VideoCapture_def Let_def finally_block_def nothing_held_def
        split: if_splits option.splits prod.splits path_status.splits)

lemma returned_metrics:
  assumes "process_video e target_fps max_frames return_metrics = (Inr (w, fps, Some m), eff)"
    and "input_file e = Video cap"
  shows "\<exists>s. run_loop cap max_frames = (None, s) \<and> m = finalize s \<and> w = written s \<and>
           fps = out_fps target_fps cap \<and>
           eff = nothing_held (Some \<lparr>out_rate = fps, out_size = (width cap, height cap),
                                       out_frames = writer_frames s\<rparr>)"
  using process_video_Inr [OF assms(1)] assms(2)
  by (auto split: if_splits)

lemma run_loop_uncapped:
  assumes "run_loop cap max_frames = (r, s)"
  obtains s0 where
    "frame_loop None (input_frame_count cap) (remaining max_frames 0 (stream cap)) initial_state
       = (r, s0)"
    and "s = s0\<lparr>frame_idx := frame_idx s\<rparr>"
proof -
  have "frame_idx initial_state = 0"
    by (simp add: initial_state_def)
  with frame_loop_capped [of max_frames "input_frame_count cap" "stream cap" initial_state r s]
    assms that show thesis
    by (auto simp: run_loop_def)
qed

lemma accumulate_total:
  assumes "28 < length l"
  shows "\<exists>s'. accumulate l s = Inr s'"
proof (cases "prev_landmarks s")
  case None
  then show ?thesis by (simp add: accumulate_def)
next
  case (Some prev)
  show ?thesis
  proof (cases "shape l = shape prev")
    case True
    then have "length prev = length l"
      by (simp add: shape_eq_iff)
    with assms have "28 < length (norm_axis1 (subtract l prev))"
      by (simp add: length_diff)
    then have "list_all (\<lambda>i. i < length (norm_axis1 (subtract l prev))) left_idx"
      and "list_all (\<lambda>i. i < length (norm_axis1 (subtract l prev))) right_idx"
      by (simp_all add: left_idx_def right_idx_def)
    with Some True assms show ?thesis
      by (auto simp: accumulate_def Let_def fancy_index_def)
  next
    case False
    with Some show ?thesis by (simp add: accumulate_def)
  qed
qed

lemma process_frame_total:
  assumes "usable f"
  shows "\<exists>s'. process_frame n f s = Inr s'"
proof (cases f)
  case (Landmarks l)
  with assms have long: "32 < length l" by (simp add: usable_def)
  then have "28 < length l" by simp
  from accumulate_total [OF this] obtain s1 where
    "accumulate l (s\<lparr>metrics := (metrics s)\<lparr>frames_with_pose := frames_with_pose (metrics s) + 1\<rparr>\<rparr>)
       = Inr s1"
    by blast
  with Landmarks long show ?thesis
    by (simp add: process_frame_unfold)
qed (use assms in \<open>auto simp: process_frame_unfold usable_def\<close>)

lemma uncapped_loop_total:
  "list_all usable fs \<Longrightarrow> \<exists>s'. frame_loop None n fs s = (None, s')"
proof (induction fs arbitrary: s)
  case Nil
  then show ?case by simp
next
  case (Cons f fs)
  then have "usable f" and rest: "list_all usable fs"
    by simp_all
  from process_frame_total [OF this(1)] obtain s2
    where "process_frame n f (s\<lparr>frame_idx := Suc (frame_idx s)\<rparr>) = Inr s2"
    by blast
  with Cons.IH [OF rest, of s2] show ?case
    by (simp add: frame_loop_Cons)
qed

lemma run_loop_total:
  assumes "list_all usable (remaining max_frames 0 (stream cap))"
  shows "\<exists>s. run_loop cap max_frames = (None, s)"
proof -
  obtain r s where run: "run_loop cap max_frames = (r, s)"
    by (cases "run_loop cap max_frames")
  from run_loop_uncapped [OF run] obtain s0 where
    "frame_loop None (input_frame_count cap) (remaining max_frames 0 (stream cap)) initial_state
       = (r, s0)"
    by blast
  moreover from uncapped_loop_total [OF assms] obtain s1 where
    "frame_loop None (input_frame_count cap) (remaining max_frames 0 (stream cap)) initial_state
       = (None, s1)"
    by blast
  ultimately have "r = None" by simp
  with run show ?thesis by blast
qed

lemma run_loop_completed:
  assumes "run_loop cap max_frames = (None, s)"
  shows "avg_movement_intensity (metrics s) = 0"
    and "dominant_limb (metrics s) = None"
    and "frames_with_pose (metrics s) = length (filter has_pose (remaining max_frames 0 (stream cap)))"
    and "written s = length (remaining max_frames 0 (stream cap))"
    and "length (writer_frames s) = length (remaining max_frames 0 (stream cap))"
    and "total_points s = 0 \<longleftrightarrow> comparisons None (remaining max_frames 0 (stream cap)) = 0"
proof -
  from run_loop_uncapped [OF assms] obtain s0 where
    loop: "frame_loop None (input_frame_count cap) (remaining max_frames 0 (stream cap))
             initial_state = (None, s0)"
    and s: "s = s0\<lparr>frame_idx := frame_idx s\<rparr>"
    by blast
  have fields: "metrics s = metrics s0" "written s = written s0"
    "writer_frames s = writer_frames s0" "total_points s = total_points s0"
    by (subst s, simp)+
  from uncapped_loop [OF loop] fields
  show "avg_movement_intensity (metrics s) = 0"
    and "dominant_limb (metrics s) = None"
    and "frames_with_pose (metrics s) = length (filter has_pose (remaining max_frames 0 (stream cap)))"
    and "written s = length (remaining max_frames 0 (stream cap))"
    and "length (writer_frames s) = length (remaining max_frames 0 (stream cap))"
    by (simp_all add: initial_state_def)
  from uncapped_loop_points [OF loop] fields
  show "total_points s = 0 \<longleftrightarrow> comparisons None (remaining max_frames 0 (stream cap)) = 0"
    by (simp add: initial_state_def)
qed

lemma diff_euclidean:
  "norm_axis1 (subtract a b) = map (\<lambda>i. euclidean (a ! i) (b ! i)) [0..<min (length a) (length b)]"
  by (rule nth_equalityI)
     (auto simp: norm_axis1_def subtract_def euclidean_def split: prod.splits)

lemma still33_split: "still33 = replicate 11 (0, 0) @ (0, 0) # replicate 21 (0, 0)"
  unfolding still33_def by (simp add: replicate_add [symmetric] flip: replicate_Suc)

lemma diff_moved_still:
  "norm_axis1 (subtract moved33 still33) = replicate 11 0 @ (1 / 2) # replicate 21 0"
  unfolding still33_split moved33_def subtract_def norm_axis1_def by simp

lemma sample_lengths [simp]: "length still33 = 33" "length moved33 = 33" "length wide34 = 34"
  by (simp_all add: still33_def moved33_def wide34_def)

lemma sum_moved_still: "(\<Sum>i\<leftarrow>[0..<33]. euclidean (moved33 ! i) (still33 ! i)) = 1 / 2"
proof -
  have "(\<Sum>i\<leftarrow>[0..<33]. euclidean (moved33 ! i) (still33 ! i)) =
        sum_list (norm_axis1 (subtract moved33 still33))"
    by (simp add: diff_euclidean)
  also have "\<dots> = 1 / 2"
    by (simp add: diff_moved_still sum_list_replicate)
  finally show ?thesis .
qed

lemma euclidean_samples [simp]:
  "euclidean (0, 1 / 2) (0, 0) = 1 / 2" "euclidean (0, 0) (0, 0) = 0"
  by (simp_all add: euclidean_def)

lemma sample_shapes [simp]: "shape still33 = [33, 2]" "shape moved33 = [33, 2]"
  by (simp_all add: shape_def still33_def moved33_def)

lemma moved33_not_Nil [simp]: "moved33 \<noteq> []"
  by (simp add: moved33_def)

lemma dance_run: "run_loop dance_clip None = (None, dance_final)"
  by (simp add: run_loop_def dance_clip_def initial_state_def frame_loop_Cons process_frame_unfold
      accumulate_def diff_moved_still fancy_index_def left_idx_def right_idx_def nth_append
      write_frame_def Let_def input_frame_count_def py_int_def dance_final_def
      sum_list_replicate)

lemma dance_finalize: "finalize dance_final = dance_metrics"
  by (simp add: finalize_def dance_final_def dance_metrics_def round5_def rint_def Let_def)

lemma dance_call:
  "process_video (studio (Video dance_clip)) target_fps None return_metrics =
     (Inr (3, out_fps target_fps dance_clip, if return_metrics then Some dance_metrics else None),
      dance_effects (out_fps target_fps dance_clip))"
proof -
  have "width dance_clip = 160" "height dance_clip = 120" "written dance_final = 3"
    by (simp_all add: width_def height_def dance_clip_def py_int_def dance_final_def)
  then show ?thesis
    by (simp add: process_video_def studio_def os_path_isfile_def VideoCapture_def dance_run
        dance_finalize dance_effects_def nothing_held_def finally_block_def Let_def)
qed

lemma dance_rate: "out_fps None dance_clip = 25"
  by (simp add: out_fps_def in_fps_def dance_clip_def)

lemma dance_prop_fps: "prop_fps dance_clip = 25"
  by (simp add: dance_clip_def)

lemma released_when_session_starts:
  "pose_starts e \<Longrightarrow> all_released (snd (process_video e target_fps max_frames return_metrics))"
  by (auto simp: process_video_def all_released_def nothing_held_def finally_block_def Let_def
        split: option.splits prod.splits)

section \<open>The claims\<close>

text \<open>
  C2. Take a frame with a detected pose for which previous landmarks of the same length
  exist. When the comparison of line 105 is reached, that is, when the skeleton could be drawn
  (which needs the 33 landmarks it connects), the frame is processed without error and: the
  sum of the per-landmark Euclidean distances between current and previous landmarks is added
  to the movement accumulator, the landmark count is added to the point samples, the
  distances at the left indices are added to the left movement and those at the right indices
  to the right movement, and the current landmarks become the previous ones. A shorter list
  never reaches the comparison: drawing it raises \<^verbatim>\<open>ValueError\<close>.
\<close>

theorem displacement_accumulated:
  assumes "prev_landmarks s = Some prev"
    and "length prev = length l"
  shows "(draw_landmarks l POSE_CONNECTIONS = Inr l \<longleftrightarrow> 32 < length l) \<and>
    (32 < length l \<longrightarrow>
      (\<exists>s'. process_frame n (Landmarks l) s = Inr s' \<and>
        movement_accumulator s' =
          movement_accumulator s + (\<Sum>i\<leftarrow>[0..<length l]. euclidean (l ! i) (prev ! i)) \<and>
        total_points s' = total_points s + length l \<and>
        left_movement s' = left_movement s + (\<Sum>i\<leftarrow>left_idx. euclidean (l ! i) (prev ! i)) \<and>
        right_movement s' = right_movement s + (\<Sum>i\<leftarrow>right_idx. euclidean (l ! i) (prev ! i)) \<and>
        prev_landmarks s' = Some l)) \<and>
    (\<not> 32 < length l \<longrightarrow> process_frame n (Landmarks l) s = Inl ValueError)"
proof (intro conjI impI)
  show "draw_landmarks l POSE_CONNECTIONS = Inr l \<longleftrightarrow> 32 < length l"
    by (simp add: draw_pose)
next
  assume long: "32 < length l"
  let ?d = "map (\<lambda>i. euclidean (l ! i) (prev ! i)) [0..<length l]"
  have diff: "norm_axis1 (subtract l prev) = ?d"
    using assms(2) by (simp add: diff_euclidean)
  have sh: "shape l = shape prev" "l \<noteq> []"
    using assms(2) long by (auto simp: shape_eq_iff)
  have left: "fancy_index ?d left_idx = Inr (map (\<lambda>i. euclidean (l ! i) (prev ! i)) left_idx)"
    using long by (simp add: fancy_index_def left_idx_def)
  have right: "fancy_index ?d right_idx = Inr (map (\<lambda>i. euclidean (l ! i) (prev ! i)) right_idx)"
    using long by (simp add: fancy_index_def right_idx_def)
  show "\<exists>s'. process_frame n (Landmarks l) s = Inr s' \<and>
        movement_accumulator s' =
          movement_accumulator s + (\<Sum>i\<leftarrow>[0..<length l]. euclidean (l ! i) (prev ! i)) \<and>
        total_points s' = total_points s + length l \<and>
        left_movement s' = left_movement s + (\<Sum>i\<leftarrow>left_idx. euclidean (l ! i) (prev ! i)) \<and>
        right_movement s' = right_movement s + (\<Sum>i\<leftarrow>right_idx. euclidean (l ! i) (prev ! i)) \<and>
        prev_landmarks s' = Some l"
    using assms(1) sh long
    by (simp add: process_frame_unfold accumulate_def diff left right Let_def)
next
  assume "\<not> 32 < length l"
  then show "process_frame n (Landmarks l) s = Inl ValueError"
    by (simp add: process_frame_unfold)
qed

theorem displacement_accumulated_witness:
  "prev_landmarks (tracking still33) = Some still33 \<and> length still33 = length moved33 \<and>
   32 < length moved33 \<and>
   (\<exists>s'. process_frame 3 (Landmarks moved33) (tracking still33) = Inr s' \<and>
         movement_accumulator s' = 1 / 2 \<and> total_points s' = 33 \<and>
         left_movement s' = 1 / 2 \<and> right_movement s' = 0)"
proof -
  have h1: "prev_landmarks (tracking still33) = Some still33"
    by (simp add: tracking_def)
  have h2: "length still33 = length moved33" and h3: "32 < length moved33"
    by simp_all
  have at: "moved33 ! 11 = (0, 1 / 2)" "still33 ! 11 = (0, 0)"
    by (simp_all add: moved33_def still33_def nth_append)
  have others: "i \<in> set left_idx \<union> set right_idx \<Longrightarrow> i \<noteq> 11 \<Longrightarrow>
      moved33 ! i = (0, 0) \<and> still33 ! i = (0, 0)" for i
    by (auto simp: left_idx_def right_idx_def moved33_def still33_def nth_append)
  have left: "(\<Sum>i\<leftarrow>left_idx. euclidean (moved33 ! i) (still33 ! i)) = 1 / 2"
    using at others [of 13] others [of 15] others [of 23] others [of 25] others [of 27]
    by (simp add: left_idx_def right_idx_def)
  have right: "(\<Sum>i\<leftarrow>right_idx. euclidean (moved33 ! i) (still33 ! i)) = 0"
    using others [of 12] others [of 14] others [of 16] others [of 24] others [of 26] others [of 28]
    by (simp add: left_idx_def right_idx_def)
  from displacement_accumulated [OF h1 h2, of 3] h3 obtain s' where
    "process_frame 3 (Landmarks moved33) (tracking still33) = Inr s'"
    "movement_accumulator s' = 1 / 2" "total_points s' = 33"
    "left_movement s' = 1 / 2" "right_movement s' = 0"
    by (auto simp: sum_moved_still left right tracking_def initial_state_def)
  with h1 h2 h3 show ?thesis
    by blast
qed



text \<open>
  C1. When a call returns its metrics, they are derived from the state in which the frame
  loop ended: with a positive number of point samples the average intensity is the movement
  accumulator divided by the samples and rounded to five decimals, and the dominant limb is
  "left" exactly when the left movement is strictly greater than the right one (a tie gives
  "right"); with no samples the intensity is 0 and the dominant limb is absent.
\<close>

theorem metrics_finalized:
  assumes "process_video e target_fps max_frames return_metrics = (Inr (w, fps, Some m), eff)"
    and "input_file e = Video cap"
    and "run_loop cap max_frames = (r, s)"
  shows "(0 < total_points s \<longrightarrow>
           avg_movement_intensity m = round5 (movement_accumulator s / real (total_points s)) \<and>
           dominant_limb m =
             (if left_movement s > right_movement s then Some ''left'' else Some ''right'') \<and>
           (left_movement s = right_movement s \<longrightarrow> dominant_limb m = Some ''right'')) \<and>
         (\<not> 0 < total_points s \<longrightarrow>
           avg_movement_intensity m = 0 \<and> dominant_limb m = None)"
proof -
  from returned_metrics [OF assms(1,2)] assms(3) have run: "run_loop cap max_frames = (None, s)"
    and m: "m = finalize s"
    by auto
  from run_loop_completed(1,2) [OF run] m show ?thesis
    by (simp add: finalize_def Let_def)
qed

theorem metrics_finalized_witness:
  "process_video (studio (Video dance_clip)) None None True =
     (Inr (3, 25, Some dance_metrics), dance_effects 25) \<and>
   input_file (studio (Video dance_clip)) = Video dance_clip \<and>
   run_loop dance_clip None = (None, dance_final) \<and>
   0 < total_points dance_final \<and>
   avg_movement_intensity dance_metrics = round5 ((1 / 2) / 33) \<and>
   dominant_limb dance_metrics = Some ''left''"
proof -
  have call: "process_video (studio (Video dance_clip)) None None True =
      (Inr (3, 25, Some dance_metrics), dance_effects 25)"
    by (simp add: dance_call dance_rate)
  have inp: "input_file (studio (Video dance_clip)) = Video dance_clip"
    by (simp add: studio_def)
  from metrics_finalized [OF call inp dance_run] call inp dance_run show ?thesis
    by (simp add: dance_final_def)
qed

text \<open>
  C3. When a call returns its metrics, the dominant limb is "left", "right" or absent, and it
  is absent exactly when no processed frame had its landmarks compared with previous ones,
  that is, when no displacement entered the accumulators during the run. (The test is on the
  count of samples, not on the amount of movement: compared frames without any movement
  still give "right".)
\<close>

theorem dominant_limb_absent_iff:
  assumes "process_video e target_fps max_frames return_metrics = (Inr (w, fps, Some m), eff)"
    and "input_file e = Video cap"
  shows "dominant_limb m \<in> {Some ''left'', Some ''right'', None} \<and>
         (dominant_limb m = None \<longleftrightarrow>
            comparisons None (remaining max_frames 0 (stream cap)) = 0)"
proof -
  from returned_metrics [OF assms(1,2)] obtain s
    where run: "run_loop cap max_frames = (None, s)" and m: "m = finalize s"
    by blast
  from run_loop_completed(2,6) [OF run] m show ?thesis
    by (auto simp: finalize_def Let_def)
qed

theorem dominant_limb_absent_iff_witness:
  "process_video (studio (Video dance_clip)) (Some 10) None True =
     (Inr (3, 10, Some dance_metrics), dance_effects 10) \<and>
   input_file (studio (Video dance_clip)) = Video dance_clip \<and>
   dominant_limb dance_metrics = Some ''left'' \<and>
   comparisons None (remaining None 0 (stream dance_clip)) = 1"
proof -
  have call: "process_video (studio (Video dance_clip)) (Some 10) None True =
      (Inr (3, 10, Some dance_metrics), dance_effects 10)"
    by (simp add: dance_call out_fps_def)
  have inp: "input_file (studio (Video dance_clip)) = Video dance_clip"
    by (simp add: studio_def)
  have "comparisons None (remaining None 0 (stream dance_clip)) = 1"
    by (simp add: remaining_def dance_clip_def compared_def tracked_def)
  with dominant_limb_absent_iff [OF call inp] call inp show ?thesis
    by (simp add: dance_metrics_def)
qed

text \<open>
  C6. When a call returns its metrics, \<^verbatim>\<open>frames_processed\<close> equals the returned count of
  written frames, and that count is the number of frames in the output file.
\<close>

theorem frames_processed_is_written:
  assumes "process_video e target_fps max_frames return_metrics = (Inr (w, fps, Some m), eff)"
  shows "frames_processed m = w \<and>
         (\<exists>file. output_file eff = Some file \<and> length (out_frames file) = w)"
proof -
  from process_video_Inr [OF assms] obtain cap where "input_file e = Video cap"
    by blast
  from returned_metrics [OF assms this] obtain s
    where run: "run_loop cap max_frames = (None, s)" and m: "m = finalize s"
      and w: "w = written s"
      and eff: "eff = nothing_held (Some \<lparr>out_rate = fps, out_size = (width cap, height cap),
                                           out_frames = writer_frames s\<rparr>)"
    by blast
  from run_loop_completed(4,5) [OF run] m w eff show ?thesis
    by (simp add: finalize_def Let_def nothing_held_def)
qed

theorem frames_processed_is_written_witness:
  "process_video (studio (Video dance_clip)) (Some 30) None True =
     (Inr (3, 30, Some dance_metrics), dance_effects 30) \<and>
   frames_processed dance_metrics = 3 \<and>
   (\<exists>file. output_file (dance_effects 30) = Some file \<and> length (out_frames file) = 3)"
proof -
  have call: "process_video (studio (Video dance_clip)) (Some 30) None True =
      (Inr (3, 30, Some dance_metrics), dance_effects 30)"
    by (simp add: dance_call out_fps_def)
  from frames_processed_is_written [OF call] call show ?thesis
    by simp
qed

text \<open>
  C10. When a call returns its metrics, the count of frames with a pose is at most the count
  of frames processed; it is the number of pose-bearing frames among those the loop processed.
\<close>

theorem frames_with_pose_bounded:
  assumes "process_video e target_fps max_frames return_metrics = (Inr (w, fps, Some m), eff)"
    and "input_file e = Video cap"
  shows "0 \<le> frames_with_pose m \<and> frames_with_pose m \<le> frames_processed m \<and>
         frames_with_pose m = length (filter has_pose (remaining max_frames 0 (stream cap)))"
proof -
  from returned_metrics [OF assms(1,2)] obtain s
    where run: "run_loop cap max_frames = (None, s)" and m: "m = finalize s"
    by blast
  have "length (filter has_pose (remaining max_frames 0 (stream cap)))
          \<le> length (remaining max_frames 0 (stream cap))"
    by (rule length_filter_le)
  with run_loop_completed(3,4) [OF run] m show ?thesis
    by (simp add: finalize_def Let_def)
qed

theorem frames_with_pose_bounded_witness:
  "process_video (studio (Video dance_clip)) (Some 24) None True =
     (Inr (3, 24, Some dance_metrics), dance_effects 24) \<and>
   input_file (studio (Video dance_clip)) = Video dance_clip \<and>
   frames_with_pose dance_metrics = 2 \<and> frames_processed dance_metrics = 3"
proof -
  have call: "process_video (studio (Video dance_clip)) (Some 24) None True =
      (Inr (3, 24, Some dance_metrics), dance_effects 24)"
    by (simp add: dance_call out_fps_def)
  have inp: "input_file (studio (Video dance_clip)) = Video dance_clip"
    by (simp add: studio_def)
  from frames_with_pose_bounded [OF call inp] call inp show ?thesis
    by (simp add: dance_metrics_def)
qed

text \<open>
  C4, as amended. When a call returns, the returned frame rate is the target frame rate
  whenever one is given and is not zero, a negative one included; with no target, or a target
  of zero, it is the rate the source reports, and 30 when the source reports zero.
\<close>

theorem output_rate:
  assumes "process_video e target_fps max_frames return_metrics = (Inr (w, fps, m), eff)"
    and "input_file e = Video cap"
  shows "(\<forall>t. target_fps = Some t \<and> t \<noteq> 0 \<longrightarrow> fps = t) \<and>
         (target_fps = None \<or> target_fps = Some 0 \<longrightarrow>
            fps = (if prop_fps cap = 0 then 30 else prop_fps cap))"
  using process_video_Inr [OF assms(1)] assms(2)
  by (auto simp: out_fps_def in_fps_def)

theorem output_rate_witness:
  "process_video (studio (Video dance_clip)) (Some 10) None False =
     (Inr (3, 10, None), dance_effects 10) \<and>
   process_video (studio (Video dance_clip)) None None False =
     (Inr (3, 25, None), dance_effects 25) \<and>
   input_file (studio (Video dance_clip)) = Video dance_clip \<and>
   prop_fps dance_clip = 25"
proof -
  have call: "process_video (studio (Video dance_clip)) (Some 10) None False =
      (Inr (3, 10, None), dance_effects 10)"
    by (simp add: dance_call out_fps_def)
  have inp: "input_file (studio (Video dance_clip)) = Video dance_clip"
    by (simp add: studio_def)
  have "process_video (studio (Video dance_clip)) None None False =
      (Inr (3, out_fps None dance_clip, None), dance_effects (out_fps None dance_clip))"
    by (simp add: dance_call)
  from output_rate [OF this inp] output_rate [OF call inp] call inp show ?thesis
    by (simp add: dance_call dance_prop_fps dance_rate)
qed

text \<open>
  C4 as stated sends every target that is not greater than zero to the source's rate. The
  code tests the target for truth, so a negative target is used: with a target of -5 on a
  source of 25 frames per second (and an encoder that opens) the call returns -5, where the
  claim expects 25.
\<close>

theorem negative_target_counterexample:
  "process_video (studio (Video dance_clip)) (Some (- 5)) None False =
     (Inr (3, - 5, None), dance_effects (- 5)) \<and>
   claimed_out_fps (Some (- 5)) dance_clip = 25"
  by (simp add: dance_call out_fps_def claimed_out_fps_def dance_prop_fps)




text \<open>
  C9. The claim asks that every handle acquired is released on every exit path. It fails
  where the pose session cannot be created (line 62): decoder and encoder are open by then,
  the \<^verbatim>\<open>try\<close> block has not been entered, and the exception leaves with both still held.
\<close>

theorem pose_start_failure_leaks:
  "process_video (broken_estimator (Video dance_clip)) None None True =
     (Inl ExternalError,
      \<lparr>cap_held = True, writer_held = True, pose_held = False,
       output_file = Some \<lparr>out_rate = 25, out_size = (160, 120), out_frames = []\<rparr>\<rparr>) \<and>
   \<not> all_released (snd (process_video (broken_estimator (Video dance_clip)) None None True))"
proof -
  have "width dance_clip = 160" "height dance_clip = 120"
    by (simp_all add: width_def height_def dance_clip_def py_int_def)
  then show ?thesis
    by (simp add: process_video_def broken_estimator_def os_path_isfile_def VideoCapture_def
        dance_rate all_released_def nothing_held_def Let_def)
qed

text \<open>
  C5. With \<^verbatim>\<open>max_frames\<close> a positive integer, a call that returns has written exactly the
  first \<^verbatim>\<open>max_frames\<close> frames of the source, or all of them when the source is shorter, so
  never more than \<^verbatim>\<open>max_frames\<close>. And the call does return whenever decoder, encoder and
  pose session open and the frames up to the cap can be processed, whatever comes after the
  cap: five frames are written from a source of fifteen.
\<close>

theorem max_frames_stops_loop:
  assumes "0 < k"
    and "input_file e = Video cap"
  shows "(process_video e target_fps (Some k) return_metrics = (Inr (w, fps, m), eff) \<longrightarrow>
            w = min (nat k) (length (stream cap)) \<and> int w \<le> k) \<and>
         (writer_isOpened e (out_fps target_fps cap) (width cap, height cap) \<and> pose_starts e \<and>
          list_all usable (take (nat k) (stream cap)) \<longrightarrow>
            (\<exists>m eff. process_video e target_fps (Some k) return_metrics =
               (Inr (min (nat k) (length (stream cap)), out_fps target_fps cap, m), eff)))"
proof (intro conjI impI)
  assume "process_video e target_fps (Some k) return_metrics = (Inr (w, fps, m), eff)"
  from process_video_Inr [OF this] assms(2) obtain s
    where run: "run_loop cap (Some k) = (None, s)" and w: "w = written s"
    by auto
  from run_loop_completed(4) [OF run] w assms(1)
  show "w = min (nat k) (length (stream cap))"
    by (simp add: remaining_def min.commute)
  with assms(1) show "int w \<le> k"
    by simp
next
  assume ok: "writer_isOpened e (out_fps target_fps cap) (width cap, height cap) \<and>
    pose_starts e \<and> list_all usable (take (nat k) (stream cap))"
  with assms(1) have "list_all usable (remaining (Some k) 0 (stream cap))"
    by (simp add: remaining_def)
  from run_loop_total [OF this] obtain s where run: "run_loop cap (Some k) = (None, s)"
    by blast
  from run_loop_completed(4) [OF run] assms(1)
  have "written s = min (nat k) (length (stream cap))"
    by (simp add: remaining_def min.commute)
  with run ok assms(2)
  show "\<exists>m eff. process_video e target_fps (Some k) return_metrics =
      (Inr (min (nat k) (length (stream cap)), out_fps target_fps cap, m), eff)"
    by (simp add: process_video_def os_path_isfile_def VideoCapture_def Let_def)
qed

theorem max_frames_stops_loop_witness:
  "(0::int) < 5 \<and> input_file (studio (Video dot_clip)) = Video dot_clip \<and>
   length (stream dot_clip) = 15 \<and>
   (\<exists>m eff. process_video (studio (Video dot_clip)) None (Some 5) True =
      (Inr (5, 10, m), eff))"
proof -
  have inp: "input_file (studio (Video dot_clip)) = Video dot_clip"
    by (simp add: studio_def)
  have len: "length (stream dot_clip) = 15"
    by (simp add: dot_clip_def)
  have ok: "writer_isOpened (studio (Video dot_clip)) (out_fps None dot_clip)
      (width dot_clip, height dot_clip) \<and> pose_starts (studio (Video dot_clip)) \<and>
    list_all usable (take (nat 5) (stream dot_clip))"
    by (simp add: studio_def dot_clip_def usable_def list_all_iff)
  have rate: "out_fps None dot_clip = 10"
    by (simp add: out_fps_def in_fps_def dot_clip_def)
  from max_frames_stops_loop [of 5, OF _ inp, of None True] ok len rate inp show ?thesis
    by simp
qed

end
